theory Spec2Isabelle
  imports Complex_Main
begin

section \<open>Errors raised by the Python code\<close>

datatype py_error = ValueError | NameError | TypeError | IndexError | LinAlgError | ZeroDivisionError

section \<open>Top-level \<open>fit\<close>: input validation (allfit.py)\<close>

text \<open>
  \<open>str.lower\<close> on ASCII text: the letters \<open>A\<close> to \<open>Z\<close> (codes 65 to 90) move up by 32,
  every other character is kept.
\<close>

definition lower_char :: "char \<Rightarrow> char" where
  "lower_char c =
     (let n = (of_char c :: nat) in if 65 \<le> n \<and> n \<le> 90 then char_of (n + 32) else c)"

definition lower :: "string \<Rightarrow> string" where
  "lower s = map lower_char s"

text \<open>The list the method is tested against in \<open>fit\<close>.\<close>

definition fit_methods :: "string list" where
  "fit_methods = [''cholesky'', ''svd'', ''qr'', ''sparse'', ''htcen'', ''curve_fit'']"

text \<open>The solve methods named by the configuration of the specification.\<close>

definition spec_methods :: "string list" where
  "spec_methods = [''qr'', ''svd'', ''cholesky'', ''sparse-cholesky'', ''htcen'']"

text \<open>
  The first statements of \<open>fit\<close>: the loop over the required columns, then the method
  test. \<open>keys\<close> are the column names of the catalog. On success the lower-cased method
  is what the rest of the function goes on with.
\<close>

fun check_columns :: "string list \<Rightarrow> string list \<Rightarrow> py_error + unit" where
  "check_columns keys [] = Inr ()"
| "check_columns keys (n # ns) =
     (if n \<notin> set keys then Inl ValueError else check_columns keys ns)"

definition fit_checks :: "string list \<Rightarrow> string \<Rightarrow> py_error + string" where
  "fit_checks keys method =
     (case check_columns keys [''height'', ''x'', ''y''] of
        Inl e \<Rightarrow> Inl e
      | Inr _ \<Rightarrow>
          (let m = lower method
           in if m \<notin> set fit_methods then Inl ValueError else Inr m))"

text \<open>
  \<open>fit\<close> itself: the checks, then everything else (grouping, the fitter, the group
  loop), which is the continuation \<open>fitting\<close> and runs only when both checks passed.
\<close>

definition fit :: "string list \<Rightarrow> string \<Rightarrow> (string \<Rightarrow> py_error + 'a) \<Rightarrow> py_error + 'a" where
  "fit keys method fitting =
     (case fit_checks keys method of Inl e \<Rightarrow> Inl e | Inr m \<Rightarrow> fitting m)"

section \<open>float64 and int64 arithmetic; bounding box of a star (getpsf_numba.py)\<close>

text \<open>
  \<open>np.round\<close> rounds to the nearest integer and a tie to the even neighbour. The rounded
  value of a float64 is a float64 again, so it is given here as the integer it denotes.
\<close>

definition np_round :: "real \<Rightarrow> int" where
  "np_round x =
     (let f = \<lfloor>x\<rfloor>; d = x - of_int f
      in if d < 1/2 then f else if 1/2 < d then f + 1 else if even f then f else f + 1)"

text \<open>
  The code runs compiled (\<open>@njit\<close>): its reals are IEEE binary64 numbers and its integers
  are 64 bits wide. A float64 operation is the exact operation on the reals followed by
  \<open>fl64\<close>, rounding to the nearest float64 (ties to even): a number with binary exponent
  \<open>e\<close> is rounded to a multiple of \<open>2^(e - 52)\<close>, and below \<open>2^-1022\<close> to a multiple of
  \<open>2^-1074\<close>. Overflow to infinity (beyond about \<open>1.8e308\<close>) is not modelled.
\<close>

definition pow2 :: "int \<Rightarrow> real" where
  "pow2 k = (if 0 \<le> k then 2 ^ nat k else 1 / 2 ^ nat (- k))"








section \<open>Fitting pixels of a star (getpsf_numba.py)\<close>

























section \<open>Pixel index of a group (allfit.py)\<close>

text \<open>
  \<open>np.ravel_multi_index((xall, yall), shape)\<close>: the flat index \<open>x * shape[1] + y\<close> of each
  pair; \<open>ValueError\<close> when a coordinate is outside the shape.
\<close>

fun ravel_multi_index :: "int list \<Rightarrow> int list \<Rightarrow> int \<times> int \<Rightarrow> py_error + int list" where
  "ravel_multi_index [] [] shape = Inr []"
| "ravel_multi_index (x # xs) (y # ys) shape =
     (if 0 \<le> x \<and> x < fst shape \<and> 0 \<le> y \<and> y < snd shape then
        (case ravel_multi_index xs ys shape of
           Inl e \<Rightarrow> Inl e
         | Inr r \<Rightarrow> Inr ((x * snd shape + y) # r))
      else Inl ValueError)"
| "ravel_multi_index _ _ shape = Inl ValueError"

text \<open>The position of the first occurrence of a value in a list.\<close>

fun index_of :: "'a list \<Rightarrow> 'a \<Rightarrow> nat" where
  "index_of [] a = 0"
| "index_of (b # bs) a = (if a = b then 0 else Suc (index_of bs a))"

text \<open>
  \<open>np.unique(ar, return_inverse=True)\<close>: the sorted distinct values, and for each entry
  of \<open>ar\<close> its position among them.
\<close>

definition np_unique :: "int list \<Rightarrow> int list \<times> nat list" where
  "np_unique ar = (let u = sort (remdups ar) in (u, map (index_of u) ar))"

text \<open>\<open>np.unravel_index(ind, shape)\<close> for indices inside the shape.\<close>

definition unravel_index :: "int list \<Rightarrow> int \<times> int \<Rightarrow> int list \<times> int list" where
  "unravel_index ind shape = (map (\<lambda>v. v div snd shape) ind, map (\<lambda>v. v mod snd shape) ind)"

text \<open>
  The last loop of the constructor: \<open>invindex[count:count+n]\<close> for each star, \<open>n\<close> the
  number of its pixels, \<open>count\<close> advancing by \<open>n\<close>.
\<close>

fun slices :: "nat \<Rightarrow> nat list \<Rightarrow> 'a list \<Rightarrow> 'a list list" where
  "slices cnt [] iv = []"
| "slices cnt (n # ns) iv = take n (drop cnt iv) # slices (cnt + n) ns iv"

text \<open>
  What the constructor stores: \<open>ntotpix\<close>, \<open>ind1\<close>, the global pixel arrays \<open>self.x\<close> and
  \<open>self.y\<close> (here \<open>px\<close> and \<open>py\<close>), \<open>invindex\<close> and \<open>invindexlist\<close>.
\<close>

record pixelindex =
  ntotpix :: nat
  ind1 :: "int list"
  px :: "int list"
  py :: "int list"
  invindex :: "nat list"
  invindexlist :: "nat list list"

text \<open>
  Lines 126 to 162 of \<open>AllFitter.__init__\<close>. The first loop copies the pixel lists of
  the stars into consecutive slices of \<open>xall\<close> and \<open>yall\<close>, which is their
  concatenation. \<open>shape\<close> is \<open>image.shape\<close>, which the constructor reads as \<open>(nx, ny)\<close>.
\<close>

definition pixel_index :: "int \<times> int \<Rightarrow> int list list \<Rightarrow> int list list \<Rightarrow> py_error + pixelindex" where
  "pixel_index shape xlist ylist =
     (let xall = concat xlist;
          yall = concat ylist
      in case ravel_multi_index xall yall shape of
           Inl e \<Rightarrow> Inl e
         | Inr ind \<Rightarrow>
             (let (uind1, iv) = np_unique ind;
                  (x, y) = unravel_index uind1 shape
              in Inr \<lparr>ntotpix = length uind1, ind1 = uind1, px = x, py = y, invindex = iv,
                      invindexlist = slices 0 (map length xlist) iv\<rparr>))"

text \<open>Every footprint coordinate lies inside the image shape.\<close>

definition in_shape :: "int \<times> int \<Rightarrow> int list list \<Rightarrow> int list list \<Rightarrow> bool" where
  "in_shape shape xlist ylist \<longleftrightarrow>
     (\<forall>xs \<in> set xlist. \<forall>x \<in> set xs. 0 \<le> x \<and> x < fst shape)
   \<and> (\<forall>ys \<in> set ylist. \<forall>y \<in> set ys. 0 \<le> y \<and> y < snd shape)"

text \<open>The flat index of one pixel.\<close>

definition ravel :: "int \<times> int \<Rightarrow> int \<times> int \<Rightarrow> int" where
  "ravel shape p = fst p * snd shape + snd p"

section \<open>Properties\<close>

subsection \<open>Validation in \<open>fit\<close>\<close>

lemma check_columns_Inr:
  "check_columns keys ns = Inr () \<longleftrightarrow> set ns \<subseteq> set keys"
  by (induction ns) auto

lemma check_columns_Inl:
  "check_columns keys ns \<noteq> Inr () \<Longrightarrow> check_columns keys ns = Inl ValueError"
  by (induction ns) (auto split: if_splits)

text \<open>
  C7, as stated, fails: the method \<open>sparse-cholesky\<close> of the configuration set is not
  in the list \<open>fit\<close> tests, so \<open>fit\<close> raises \<open>ValueError\<close> for it.
\<close>

theorem fit_sparse_cholesky_rejected:
  "''sparse-cholesky'' \<in> set spec_methods
   \<and> fit [''height'', ''x'', ''y''] ''sparse-cholesky'' Inr = Inl ValueError"
  by (simp add: spec_methods_def fit_def fit_checks_def fit_methods_def lower_def
      lower_char_def)

text \<open>
  C7, amended. A catalog lacking one of the columns height, x, y is rejected with
  \<open>ValueError\<close> and the fitting never runs; with the three columns present, a method whose
  lower-cased name is not one of cholesky, svd, qr, sparse, htcen, curve_fit is rejected
  with \<open>ValueError\<close> and the fitting never runs; and each of those six names is accepted,
  the fitting running with it.
\<close>

theorem fit_validation:
  "(\<not> set [''height'', ''x'', ''y''] \<subseteq> set keys \<longrightarrow> fit keys method fitting = Inl ValueError)
   \<and> (set [''height'', ''x'', ''y''] \<subseteq> set keys \<and> lower method \<notin> set fit_methods
        \<longrightarrow> fit keys method fitting = Inl ValueError)
   \<and> (set [''height'', ''x'', ''y''] \<subseteq> set keys \<and> lower method \<in> set fit_methods
        \<longrightarrow> fit keys method fitting = fitting (lower method))"
proof -
  let ?req = "[''height'', ''x'', ''y'']"
  have a: "\<not> set ?req \<subseteq> set keys \<Longrightarrow> check_columns keys ?req = Inl ValueError"
    using check_columns_Inr [of keys ?req] check_columns_Inl [of keys ?req] by blast
  have b: "set ?req \<subseteq> set keys \<Longrightarrow> check_columns keys ?req = Inr ()"
    using check_columns_Inr [of keys ?req] by blast
  show ?thesis
    using a b by (auto simp: fit_def fit_checks_def Let_def)
qed

theorem fit_validation_witness:
  "fit [''x'', ''y''] ''qr'' Inr = Inl ValueError
   \<and> fit [''height'', ''x'', ''y''] ''lsq'' Inr = Inl ValueError
   \<and> fit [''id'', ''height'', ''x'', ''y''] ''QR'' Inr = Inr ''qr''
   \<and> fit [''height'', ''x'', ''y''] ''curve_fit'' Inr = Inr ''curve_fit''"
proof -
  have l1: "lower ''lsq'' = ''lsq''" by (simp add: lower_def lower_char_def)
  have l2: "lower ''QR'' = ''qr''" by code_simp
  have l3: "lower ''curve_fit'' = ''curve_fit''" by (simp add: lower_def lower_char_def)
  show ?thesis
    using fit_validation [of "[''x'', ''y'']" "''qr''" Inr]
      fit_validation [of "[''height'', ''x'', ''y'']" "''lsq''" Inr]
      fit_validation [of "[''id'', ''height'', ''x'', ''y'']" "''QR''" Inr]
      fit_validation [of "[''height'', ''x'', ''y'']" "''curve_fit''" Inr]
    by (simp add: l1 l2 l3 fit_methods_def)
qed

subsection \<open>Rounding to float64\<close>

lemma np_round_lower: "x - 1/2 \<le> of_int (np_round x)"
  unfolding np_round_def Let_def by (auto; linarith)

lemma np_round_upper: "of_int (np_round x) \<le> x + 1/2"
  unfolding np_round_def Let_def by (auto; linarith)








lemma pow2_nat: "0 \<le> k \<Longrightarrow> pow2 k = 2 ^ nat k"
  by (simp add: pow2_def)


















subsection \<open>Bounding box\<close>














subsection \<open>Fixed-size star buffers\<close>










































subsection \<open>Pixel index\<close>

lemma ravel_multi_index_ok:
  assumes "length xs = length ys"
    and "\<forall>x \<in> set xs. 0 \<le> x \<and> x < fst shape" "\<forall>y \<in> set ys. 0 \<le> y \<and> y < snd shape"
  shows "ravel_multi_index xs ys shape = Inr (map (ravel shape) (zip xs ys))"
  using assms by (induction xs ys rule: list_induct2) (auto simp: ravel_def)

lemma index_of_member:
  assumes "a \<in> set bs"
  shows "index_of bs a < length bs \<and> bs ! index_of bs a = a"
  using assms by (induction bs) auto

lemma slices_concat:
  assumes "length pre = cnt"
  shows "slices cnt (map length xss) (pre @ map f (concat xss) @ post) = map (map f) xss"
  using assms
proof (induction xss arbitrary: pre cnt)
  case Nil
  then show ?case by simp
next
  case (Cons xs xss)
  have "slices (cnt + length xs) (map length xss)
          ((pre @ map f xs) @ map f (concat xss) @ post) = map (map f) xss"
    using Cons.prems by (intro Cons.IH) simp
  then show ?case using Cons.prems by simp
qed

lemma concat_zip:
  assumes "length xss = length yss" "\<forall>i < length xss. length (xss ! i) = length (yss ! i)"
  shows "zip (concat xss) (concat yss) = concat (map2 zip xss yss)"
  using assms
proof (induction xss yss rule: list_induct2)
  case Nil
  then show ?case by simp
next
  case (Cons xs xss ys yss)
  from Cons.prems have l0: "length xs = length ys" by fastforce
  from Cons.prems have "\<forall>i < length xss. length (xss ! i) = length (yss ! i)" by fastforce
  with Cons.IH have "zip (concat xss) (concat yss) = concat (map2 zip xss yss)" by simp
  with l0 show ?case by simp
qed

lemma unravel_ravel:
  assumes "0 \<le> snd p" "snd p < snd shape"
  shows "ravel shape p div snd shape = fst p" "ravel shape p mod snd shape = snd p"
  using assms by (simp_all add: ravel_def)

lemma distinct_unravel:
  fixes u :: "int list" and n :: int
  assumes "distinct u"
  shows "distinct (zip (map (\<lambda>v. v div n) u) (map (\<lambda>v. v mod n) u))"
proof -
  have eq: "zip (map (\<lambda>v. v div n) u) (map (\<lambda>v. v mod n) u) = map (\<lambda>v::int. (v div n, v mod n)) u"
    by (induction u) simp_all
  have inj: "inj_on (\<lambda>v::int. (v div n, v mod n)) (set u)"
  proof (rule inj_onI)
    fix a b :: int
    assume "(a div n, a mod n) = (b div n, b mod n)"
    then have "a div n * n + a mod n = b div n * n + b mod n" by simp
    then show "a = b" by simp
  qed
  show ?thesis unfolding eq using assms inj by (simp only: distinct_map simp_thms)
qed

lemma length_concat_eq:
  assumes "length xss = length yss" "\<forall>i < length xss. length (xss ! i) = length (yss ! i)"
  shows "length (concat xss) = length (concat yss)"
  using assms
proof (induction xss yss rule: list_induct2)
  case Nil
  then show ?case by simp
next
  case (Cons xs xss ys yss)
  from Cons.prems have l0: "length xs = length ys" by fastforce
  from Cons.prems have "\<forall>i < length xss. length (xss ! i) = length (yss ! i)" by fastforce
  with Cons.IH have "length (concat xss) = length (concat yss)" by simp
  with l0 show ?case by simp
qed

lemma pixel_index_value:
  assumes len: "length ylist = length xlist"
      "\<forall>i < length xlist. length (ylist ! i) = length (xlist ! i)"
    and inb: "in_shape shape xlist ylist"
    and u: "u = sort (remdups (map (ravel shape) (concat (map2 zip xlist ylist))))"
  shows "pixel_index shape xlist ylist =
     Inr \<lparr>ntotpix = length u, ind1 = u, px = map (\<lambda>v. v div snd shape) u,
          py = map (\<lambda>v. v mod snd shape) u,
          invindex = map (index_of u) (map (ravel shape) (concat (map2 zip xlist ylist))),
          invindexlist = map (map (\<lambda>q. index_of u (ravel shape q))) (map2 zip xlist ylist)\<rparr>"
proof -
  define zs where "zs = map2 zip xlist ylist"
  define ind where "ind = map (ravel shape) (concat zs)"
  have lc: "length (concat xlist) = length (concat ylist)"
    using len by (intro length_concat_eq) simp_all
  have zc: "zip (concat xlist) (concat ylist) = concat zs"
    unfolding zs_def using len by (intro concat_zip) simp_all
  have b1: "\<forall>x \<in> set (concat xlist). 0 \<le> x \<and> x < fst shape"
    using inb by (auto simp: in_shape_def)
  have b2: "\<forall>y \<in> set (concat ylist). 0 \<le> y \<and> y < snd shape"
    using inb by (auto simp: in_shape_def)
  have rm: "ravel_multi_index (concat xlist) (concat ylist) shape = Inr ind"
    using ravel_multi_index_ok [OF lc b1 b2] by (simp add: zc ind_def)
  have lz: "map length xlist = map length zs"
    unfolding zs_def using len by (auto intro!: nth_equalityI)
  have "slices 0 (map length zs) ([] @ map (\<lambda>q. index_of u (ravel shape q)) (concat zs) @ [])
          = map (map (\<lambda>q. index_of u (ravel shape q))) zs"
    by (rule slices_concat) simp
  then have sl: "slices 0 (map length xlist) (map (index_of u) ind)
          = map (map (\<lambda>q. index_of u (ravel shape q))) zs"
    by (simp add: lz ind_def comp_def)
  have u': "sort (remdups ind) = u" by (simp add: u ind_def zs_def)
  show ?thesis
    unfolding pixel_index_def Let_def rm np_unique_def unravel_index_def
    by (simp add: u' sl) (simp add: ind_def zs_def)
qed

text \<open>
  C4. After the pixel index is built (the footprint lists of the stars pairing x and y
  entry by entry, every coordinate inside the image shape), the global pixel array
  \<open>(self.x, self.y)\<close> contains no pair twice, and for every star \<open>i\<close> and every pixel
  \<open>k\<close> of its footprint \<open>invindexlist[i][k]\<close> is a position of the global array that
  holds the coordinates \<open>(xlist[i][k], ylist[i][k])\<close>; \<open>invindexlist[i]\<close> has one entry
  for each pixel of the footprint, so none is omitted.
\<close>

theorem pixel_index_dedup:
  assumes len: "length ylist = length xlist"
      "\<forall>i < length xlist. length (ylist ! i) = length (xlist ! i)"
    and inb: "in_shape shape xlist ylist"
  shows "\<exists>p. pixel_index shape xlist ylist = Inr p
     \<and> distinct (zip (px p) (py p))
     \<and> length (invindexlist p) = length xlist
     \<and> (\<forall>i < length xlist. length (invindexlist p ! i) = length (xlist ! i)
          \<and> (\<forall>k < length (xlist ! i).
                invindexlist p ! i ! k < length (px p)
              \<and> px p ! (invindexlist p ! i ! k) = xlist ! i ! k
              \<and> py p ! (invindexlist p ! i ! k) = ylist ! i ! k))"
proof -
  define zs where "zs = map2 zip xlist ylist"
  define u where "u = sort (remdups (map (ravel shape) (concat zs)))"
  define f where "f = (\<lambda>q. index_of u (ravel shape q))"
  define p where "p = \<lparr>ntotpix = length u, ind1 = u, px = map (\<lambda>v. v div snd shape) u,
          py = map (\<lambda>v. v mod snd shape) u,
          invindex = map (index_of u) (map (ravel shape) (concat zs)),
          invindexlist = map (map f) zs\<rparr>"
  have pv: "pixel_index shape xlist ylist = Inr p"
    using pixel_index_value [OF len inb, of u] by (simp add: u_def zs_def p_def f_def)
  have du: "distinct u" by (simp add: u_def)
  have su: "set u = ravel shape ` set (concat zs)" by (simp add: u_def)
  have fx: "px p = map (\<lambda>v. v div snd shape) u" "py p = map (\<lambda>v. v mod snd shape) u"
    "invindexlist p = map (map f) zs" by (simp_all add: p_def)
  have lzs: "length zs = length xlist" using len by (simp add: zs_def)
  have d: "distinct (zip (px p) (py p))"
    unfolding fx using du by (rule distinct_unravel)
  have l: "length (invindexlist p) = length xlist" by (simp add: fx lzs)
  have m: "length (invindexlist p ! i) = length (xlist ! i)
          \<and> (\<forall>k < length (xlist ! i).
                invindexlist p ! i ! k < length (px p)
              \<and> px p ! (invindexlist p ! i ! k) = xlist ! i ! k
              \<and> py p ! (invindexlist p ! i ! k) = ylist ! i ! k)" if i: "i < length xlist" for i
  proof (intro allI impI conjI)
    have li: "length (ylist ! i) = length (xlist ! i)" using len i by simp
    have zi: "zs ! i = zip (xlist ! i) (ylist ! i)" using i len by (simp add: zs_def)
    show "length (invindexlist p ! i) = length (xlist ! i)"
      using i lzs li by (simp add: fx zi)
    fix k assume k: "k < length (xlist ! i)"
    define q where "q = (xlist ! i ! k, ylist ! i ! k)"
    have zik: "zs ! i ! k = q" using k li by (simp add: zi q_def)
    have kz: "k < length (zs ! i)" using k li by (simp add: zi)
    have "zs ! i \<in> set zs" using i lzs by simp
    moreover have "q \<in> set (zs ! i)" using nth_mem [OF kz] zik by simp
    ultimately have "q \<in> set (concat zs)" by auto
    then have "ravel shape q \<in> set u" by (simp add: su)
    from index_of_member [OF this]
    have io: "f q < length u" "u ! f q = ravel shape q" by (simp_all add: f_def)
    have e: "invindexlist p ! i ! k = f q"
      using i lzs kz zik by (simp add: fx)
    have "ylist ! i ! k \<in> set (ylist ! i)" using k li by simp
    moreover have "ylist ! i \<in> set ylist" using i len by simp
    ultimately have yb: "0 \<le> snd q" "snd q < snd shape"
      using inb by (auto simp: in_shape_def q_def)
    show "invindexlist p ! i ! k < length (px p)"
      unfolding e fx(1) using io by simp
    show "px p ! (invindexlist p ! i ! k) = xlist ! i ! k"
      unfolding e fx(1) using io unravel_ravel(1) [OF yb] by (simp add: q_def)
    show "py p ! (invindexlist p ! i ! k) = ylist ! i ! k"
      unfolding e fx(2) using io unravel_ravel(2) [OF yb] by (simp add: q_def)
  qed
  from pv d l m show ?thesis by blast
qed

theorem pixel_index_dedup_witness:
  "length [[0, 0], [0, 0 :: int]] = length [[0, 1], [1, 2 :: int]]
   \<and> in_shape (4, 4) [[0, 1], [1, 2]] [[0, 0], [0, 0]]
   \<and> (\<exists>p. pixel_index (4, 4) [[0, 1], [1, 2]] [[0, 0], [0, 0]] = Inr p
         \<and> distinct (zip (px p) (py p))
         \<and> length (invindexlist p) = 2
         \<and> length (invindexlist p ! 1) = 2
         \<and> px p ! (invindexlist p ! 0 ! 1) = 1 \<and> py p ! (invindexlist p ! 0 ! 1) = 0
         \<and> px p ! (invindexlist p ! 1 ! 0) = 1 \<and> py p ! (invindexlist p ! 1 ! 0) = 0)"
proof -
  have l: "length [[0, 0], [0, 0 :: int]] = length [[0, 1], [1, 2 :: int]]" by simp
  have e: "\<forall>i < length [[0, 1], [1, 2 :: int]].
      length ([[0, 0], [0, 0 :: int]] ! i) = length ([[0, 1], [1, 2 :: int]] ! i)"
    by (simp add: less_Suc_eq)
  have s: "in_shape (4, 4) [[0, 1], [1, 2]] [[0, 0], [0, 0]]" by (simp add: in_shape_def)
  from pixel_index_dedup [OF l e s]
  obtain p where p: "pixel_index (4, 4) [[0, 1], [1, 2]] [[0, 0], [0, 0]] = Inr p"
    "distinct (zip (px p) (py p))" "length (invindexlist p) = length [[0, 1], [1, 2 :: int]]"
    and m: "\<forall>i < length [[0, 1], [1, 2 :: int]].
        length (invindexlist p ! i) = length ([[0, 1], [1, 2 :: int]] ! i)
      \<and> (\<forall>k < length ([[0, 1], [1, 2 :: int]] ! i).
            invindexlist p ! i ! k < length (px p)
          \<and> px p ! (invindexlist p ! i ! k) = [[0, 1], [1, 2]] ! i ! k
          \<and> py p ! (invindexlist p ! i ! k) = [[0, 0], [0, 0]] ! i ! k)"
    by blast
  from m have m0: "px p ! (invindexlist p ! 0 ! 1) = 1" "py p ! (invindexlist p ! 0 ! 1) = 0"
    by (simp_all add: less_Suc_eq)
  from m have m1: "length (invindexlist p ! 1) = 2"
    "px p ! (invindexlist p ! 1 ! 0) = 1" "py p ! (invindexlist p ! 1 ! 0) = 0"
    by (simp_all add: less_Suc_eq)
  from l s p m0 m1 show ?thesis by auto
qed

end
